theory Spec2Isabelle
  imports Complex_Main
begin

section \<open>JavaScript values\<close>

text \<open>
  The plugin reads its configuration (\<open>custom.s3Sync\<close>) and the host's option \<open>env\<close> as
  plain JavaScript values, as a YAML or JSON document yields them: primitives, arrays and
  plain objects. A plain object has own enumerable data properties only, and
  \<open>Object.prototype\<close> as its prototype; it is written as the association list of its
  own properties, in the order \<open>Object.keys\<close> enumerates them, and read with first-match
  lookup. A key named \<open>__proto__\<close>, \<open>hasOwnProperty\<close> or \<open>toString\<close> is an own
  property like any other. Numbers are modelled for integer values.
\<close>

datatype jsval =
    JUndefined
  | JNull
  | JBool bool
  | JNum int
  | JStr string
  | JArr "jsval list"
  | JObj "(string \<times> jsval) list"

type_synonym jsobj = "(string \<times> jsval) list"

text \<open>ToBoolean: what \<open>!x\<close>, \<open>x || y\<close> and \<open>x && y\<close> test.\<close>

fun truthy :: "jsval \<Rightarrow> bool" where
  "truthy JUndefined = False"
| "truthy JNull = False"
| "truthy (JBool b) = b"
| "truthy (JNum n) = (n \<noteq> 0)"
| "truthy (JStr s) = (s \<noteq> [])"
| "truthy (JArr xs) = True"
| "truthy (JObj kvs) = True"

fun nullish :: "jsval \<Rightarrow> bool" where
  "nullish JUndefined = True"
| "nullish JNull = True"
| "nullish v = False"

fun is_array :: "jsval \<Rightarrow> bool" where
  "is_array (JArr xs) = True"
| "is_array v = False"

text \<open>
  Strict equality \<open>===\<close>. Primitives compare by value. Arrays and objects compare by
  identity; the only comparison of the program has a value of the configuration on one
  side and the option \<open>env\<close> of the host on the other, which are never the same object.
\<close>

fun strict_eq :: "jsval \<Rightarrow> jsval \<Rightarrow> bool" where
  "strict_eq JUndefined JUndefined = True"
| "strict_eq JNull JNull = True"
| "strict_eq (JBool a) (JBool b) = (a = b)"
| "strict_eq (JNum a) (JNum b) = (a = b)"
| "strict_eq (JStr a) (JStr b) = (a = b)"
| "strict_eq a b = False"

definition js_or :: "jsval \<Rightarrow> jsval \<Rightarrow> jsval" where
  "js_or a b = (if truthy a then a else b)"

text \<open>Decimal numerals, as the keys of array elements and string characters are written.\<close>

fun digits :: "nat \<Rightarrow> string" where
  "digits n =
     (if n < 10 then [char_of (48 + n)]
      else digits (n div 10) @ [char_of (48 + n mod 10)])"

text \<open>
  The own enumerable properties of a value, in enumeration order: those of an object, the
  elements of an array, the characters of a string; other primitives have none.
\<close>

fun own_props :: "jsval \<Rightarrow> jsobj" where
  "own_props (JObj kvs) = kvs"
| "own_props (JArr xs) = zip (map digits [0..<length xs]) xs"
| "own_props (JStr s) = zip (map digits [0..<length s]) (map (\<lambda>c. JStr [c]) s)"
| "own_props v = []"

definition obj_get :: "string \<Rightarrow> jsobj \<Rightarrow> jsval" where
  "obj_get k kvs = (case map_of kvs k of Some v \<Rightarrow> v | None \<Rightarrow> JUndefined)"

definition obj_has :: "string \<Rightarrow> jsobj \<Rightarrow> bool" where
  "obj_has k kvs = (map_of kvs k \<noteq> None)"

text \<open>
  Writing an own data property: an existing property keeps its place, a new one goes
  last. For an object the program builds, the list is in order of creation; JavaScript
  enumerates integer-like keys before the others, and nothing below depends on the order.
\<close>

fun obj_set :: "string \<Rightarrow> jsval \<Rightarrow> jsobj \<Rightarrow> jsobj" where
  "obj_set k v [] = [(k, v)]"
| "obj_set k v (p # ps) = (if fst p = k then (k, v) # ps else p # obj_set k v ps)"

text \<open>\<open>delete obj[k]\<close>: removes an own property, and only an own one.\<close>

definition obj_delete :: "string \<Rightarrow> jsobj \<Rightarrow> jsobj" where
  "obj_delete k kvs = filter (\<lambda>p. fst p \<noteq> k) kvs"

text \<open>
  \<open>Object.prototype.hasOwnProperty\<close> and \<open>v[k]\<close> on a value of the configuration that
  is not \<open>null\<close> or \<open>undefined\<close>. Strings and arrays also own \<open>length\<close>. The keys
  the program reads on such values are no members of the built-in prototypes, so
  inherited members are left out.
\<close>

fun own_length :: "jsval \<Rightarrow> jsval option" where
  "own_length (JArr xs) = Some (JNum (int (length xs)))"
| "own_length (JStr s) = Some (JNum (int (length s)))"
| "own_length v = None"

definition has_own :: "string \<Rightarrow> jsval \<Rightarrow> bool" where
  "has_own k v = (obj_has k (own_props v) \<or> (k = ''length'' \<and> own_length v \<noteq> None))"

definition get_prop :: "string \<Rightarrow> jsval \<Rightarrow> jsval" where
  "get_prop k v =
     (case map_of (own_props v) k of
        Some x \<Rightarrow> x
      | None \<Rightarrow> (if k = ''length'' then (case own_length v of Some n \<Rightarrow> n | None \<Rightarrow> JUndefined)
                 else JUndefined))"

text \<open>
  The call \<open>s.hasOwnProperty(k)\<close> looks the method up on \<open>s\<close> first. It throws a
  TypeError when \<open>s\<close> is \<open>null\<close> or \<open>undefined\<close>, and when \<open>s\<close> has an own property
  \<open>hasOwnProperty\<close>, which in a configuration is never a function.
\<close>

definition hasOwnProperty_throws :: "jsval \<Rightarrow> bool" where
  "hasOwnProperty_throws s = (nullish s \<or> obj_has ''hasOwnProperty'' (own_props s))"

section \<open>Objects the program builds\<close>

text \<open>
  An object that starts as \<open>{}\<close> and is filled by \<open>Object.assign\<close>: its own properties
  and its prototype. The prototype is \<open>Object.prototype\<close> until a write to the key
  \<open>__proto__\<close> reaches the setter that \<open>Object.prototype\<close> has for it; the setter
  takes an object or array (here a value of the configuration) or \<open>null\<close>, and ignores
  every other value.
\<close>

datatype proto = ObjectPrototype | NullPrototype | ConfigValue jsval

type_synonym built = "jsobj \<times> proto"

text \<open>
  Whether a write to \<open>__proto__\<close> that finds no own property of that name finds the
  setter up the prototype chain: not past \<open>null\<close>, and not past an object of the
  configuration that has \<open>__proto__\<close> as an own data property.
\<close>

definition finds_setter :: "proto \<Rightarrow> bool" where
  "finds_setter pr =
     (case pr of
        ObjectPrototype \<Rightarrow> True
      | NullPrototype \<Rightarrow> False
      | ConfigValue v \<Rightarrow> \<not> obj_has ''__proto__'' (own_props v))"

definition set_prototype :: "jsval \<Rightarrow> proto \<Rightarrow> proto" where
  "set_prototype v pr =
     (case v of
        JObj kvs \<Rightarrow> ConfigValue v
      | JArr xs \<Rightarrow> ConfigValue v
      | JNull \<Rightarrow> NullPrototype
      | _ \<Rightarrow> pr)"

text \<open>
  \<open>target[k] = v\<close>. Every property found up the chain is a writable data property, so
  the write makes or updates an own property, except the one that reaches the setter.
\<close>

definition built_set :: "string \<Rightarrow> jsval \<Rightarrow> built \<Rightarrow> built" where
  "built_set k v target =
     (case target of (own, pr) \<Rightarrow>
        if k = ''__proto__'' \<and> \<not> obj_has k own \<and> finds_setter pr
        then (own, set_prototype v pr)
        else (obj_set k v own, pr))"

text \<open>
  \<open>Object.assign(target, source)\<close>: for each own enumerable key of the source, in order,
  read the source's value and write it to the target.
\<close>

definition js_assign :: "built \<Rightarrow> jsobj \<Rightarrow> built" where
  "js_assign target source =
     fold (\<lambda>k t. built_set k (obj_get k source) t) (map fst source) target"

text \<open>
  \<open>target[k]\<close> and \<open>k in target\<close>, for a key that is no member of the built-in
  prototypes: the own property, or else the one inherited from the prototype.
\<close>

definition built_get :: "string \<Rightarrow> built \<Rightarrow> jsval" where
  "built_get k target =
     (case target of (own, pr) \<Rightarrow>
        if obj_has k own then obj_get k own
        else (case pr of ConfigValue v \<Rightarrow> get_prop k v | _ \<Rightarrow> JUndefined))"


section \<open>Strings\<close>

text \<open>
  ToString, as \<open>Array.prototype.join\<close> applies it to the elements it joins; \<open>null\<close> and
  \<open>undefined\<close> elements are written as the empty string. How a number is written
  (\<open>Number.prototype.toString\<close>) is a parameter. An array is its elements joined by
  commas. A plain object is \<open>[object Object]\<close>, unless it has an own property
  \<open>toString\<close>: that is no function, and the conversion throws a TypeError, which is
  \<open>None\<close> here.
\<close>

fun join_with :: "string \<Rightarrow> string list \<Rightarrow> string" where
  "join_with sep [] = []"
| "join_with sep [x] = x"
| "join_with sep (x # y # ys) = x @ sep @ join_with sep (y # ys)"

fun js_string :: "(int \<Rightarrow> string) \<Rightarrow> jsval \<Rightarrow> string option"
  and join_elems :: "(int \<Rightarrow> string) \<Rightarrow> jsval list \<Rightarrow> string list option" where
  "js_string numstr JUndefined = Some ''undefined''"
| "js_string numstr JNull = Some ''null''"
| "js_string numstr (JBool b) = Some (if b then ''true'' else ''false'')"
| "js_string numstr (JNum n) = Some (numstr n)"
| "js_string numstr (JStr s) = Some s"
| "js_string numstr (JArr xs) = map_option (join_with '','') (join_elems numstr xs)"
| "js_string numstr (JObj kvs) =
     (if obj_has ''toString'' kvs then None else Some ''[object Object]'')"
| "join_elems numstr [] = Some []"
| "join_elems numstr (x # xs) =
     (case (if nullish x then Some [] else js_string numstr x) of
        None \<Rightarrow> None
      | Some a \<Rightarrow> map_option ((#) a) (join_elems numstr xs))"

text \<open>The decimal numeral of an integer, as JavaScript writes integers below \<open>10^21\<close>.\<close>

definition decimal :: "int \<Rightarrow> string" where
  "decimal n = (if n < 0 then ''-'' @ digits (nat (- n)) else digits (nat n))"

section \<open>Effects\<close>

text \<open>
  What the plugin does to its collaborators, in the order it does it: lines and dots on
  the host's console, and the requests handed to the S3 client. A console line keeps the
  colour \<open>chalk\<close> was asked for instead of the escape codes it would write.
\<close>

datatype colour = Red | Yellow

datatype styled = Plain string | Chalk colour string

datatype event =
    ConsoleLog "styled list"
  | PrintDot
  | UploadDir jsval
  | DeleteDir jsval

fun is_remote :: "event \<Rightarrow> bool" where
  "is_remote (UploadDir p) = True"
| "is_remote (DeleteDir p) = True"
| "is_remote e = False"

datatype exn = TypeError | Thrown string

text \<open>
  The promise of one target, when the callback of \<open>s3Sync.map\<close> returns it: waiting for
  the uploader to end, or rejected because the executor of \<open>new Promise\<close> threw.
\<close>

datatype job = Pending | Rejected exn

text \<open>
  The promise an operation returns: already resolved, or \<open>Promise.all\<close> over the
  promises of the targets, followed by the events of its \<open>then\<close> handler, which runs
  once all of them are fulfilled.
\<close>

datatype promise = Resolved | AllThen "job list" "event list"

definition messagePrefix :: string where
  "messagePrefix = ''S3 Sync: ''"

section \<open>Progress\<close>

text \<open>
  \<open>Math.round((uploader.progressAmount / uploader.progressTotal) * 10) * 10\<close>, with the
  quotient taken exactly; \<open>Math.round\<close> rounds to the nearest integer, halves up, which
  is \<^const>\<open>round\<close>. The source computes in IEEE doubles. For an amount of at most
  the total and a total of at most \<open>10^14\<close> the doubles give the same decile: the two
  roundings move the product by less than \<open>2^-48\<close>, and the exact product is either a
  half-integer, which the doubles compute exactly, or at least \<open>1 / (2 * total)\<close> away
  from every half-integer. Beyond that range the two can differ by one decile.
\<close>

definition current :: "nat \<Rightarrow> nat \<Rightarrow> int" where
  "current progressAmount progressTotal =
     round ((rat_of_nat progressAmount / rat_of_nat progressTotal) * 10) * 10"

text \<open>
  The handler of a \<open>progress\<close> event, on the job's variable \<open>percent\<close> and the
  uploader's \<open>(progressAmount, progressTotal)\<close> at the event.
\<close>

fun on_progress :: "int \<Rightarrow> nat \<times> nat \<Rightarrow> int \<times> event list" where
  "on_progress percent (progressAmount, progressTotal) =
     (if progressTotal = 0 then (percent, [])
      else if current progressAmount progressTotal > percent
        then (current progressAmount progressTotal, [PrintDot])
        else (percent, []))"

text \<open>
  The progress events of one job, from \<open>percent\<close>: each dot printed, labelled with the
  decile that \<open>percent\<close> was set to when it was printed.
\<close>

fun job_ticks :: "int \<Rightarrow> (nat \<times> nat) list \<Rightarrow> int list" where
  "job_ticks percent [] = []"
| "job_ticks percent (e # es) =
     (case on_progress percent e of
        (percent', dots) \<Rightarrow> map (\<lambda>d. percent') dots @ job_ticks percent' es)"

text \<open>The decile as the specification words it: the fraction rounded down.\<close>

definition decile_spec :: "nat \<Rightarrow> nat \<Rightarrow> int" where
  "decile_spec progressAmount progressTotal =
     \<lfloor>(rat_of_nat progressAmount / rat_of_nat progressTotal) * 10\<rfloor> * 10"

section \<open>Parameter resolution\<close>

text \<open>
  The callback \<open>getS3Params\<close> that \<open>sync\<close> builds for a target \<open>s\<close>. The libraries
  \<open>minimatch\<close> and \<open>path.resolve\<close> are parameters of the model, \<open>env\<close> is
  \<open>this.options.env\<close> and \<open>localDir\<close> is the directory \<open>sync\<close> has joined for the
  target. The callback's answer \<open>cb(null, null)\<close> is \<open>None\<close> and
  \<open>cb(null, s3Params)\<close> is \<open>Some s3Params\<close>; the argument \<open>stat\<close> is not read.
\<close>

text \<open>
  \<open>Object.keys(param)[0]\<close>, as the text that the template literal and \<open>param[glob]\<close>
  make of it: the first own enumerable key, or \<open>undefined\<close>.
\<close>

definition glob_of :: "jsval \<Rightarrow> string" where
  "glob_of param = (case own_props param of [] \<Rightarrow> ''undefined'' | p # ps \<Rightarrow> fst p)"

text \<open>\<open>param[glob] || {}\<close>, as the source of \<open>Object.assign\<close>.\<close>

definition rule_params :: "jsval \<Rightarrow> jsobj" where
  "rule_params param = own_props (js_or (get_prop (glob_of param) param) (JObj []))"

definition rule_matches ::
  "(string \<Rightarrow> string \<Rightarrow> bool) \<Rightarrow> (string \<Rightarrow> string) \<Rightarrow> string \<Rightarrow> string \<Rightarrow> jsval \<Rightarrow> bool" where
  "rule_matches minimatch resolve localDir localFile param =
     minimatch localFile (resolve localDir @ ''/'' @ glob_of param)"

text \<open>
  One turn of \<open>s.params.forEach\<close> on the variables \<open>(s3Params, onlyForEnv)\<close>;
  \<open>Object.keys\<close> throws a TypeError on \<open>null\<close> and \<open>undefined\<close>.
\<close>

definition rule_step ::
  "(string \<Rightarrow> string \<Rightarrow> bool) \<Rightarrow> (string \<Rightarrow> string) \<Rightarrow> string \<Rightarrow> string \<Rightarrow> jsval \<Rightarrow>
   built \<times> jsval \<Rightarrow> exn + built \<times> jsval" where
  "rule_step minimatch resolve localDir localFile param st =
     (case st of (s3Params, onlyForEnv) \<Rightarrow>
        if nullish param then Inl TypeError
        else if rule_matches minimatch resolve localDir localFile param then
          (let s3Params' = js_assign s3Params (rule_params param)
           in Inr (s3Params', js_or (built_get ''OnlyForEnv'' s3Params') onlyForEnv))
        else Inr (s3Params, onlyForEnv))"

fun forEach_rules ::
  "(string \<Rightarrow> string \<Rightarrow> bool) \<Rightarrow> (string \<Rightarrow> string) \<Rightarrow> string \<Rightarrow> string \<Rightarrow> jsval list \<Rightarrow>
   built \<times> jsval \<Rightarrow> exn + built \<times> jsval" where
  "forEach_rules minimatch resolve localDir localFile [] st = Inr st"
| "forEach_rules minimatch resolve localDir localFile (param # params) st =
     (case rule_step minimatch resolve localDir localFile param st of
        Inl e \<Rightarrow> Inl e
      | Inr st' \<Rightarrow> forEach_rules minimatch resolve localDir localFile params st')"

text \<open>The variables after the block \<open>if (Array.isArray(s.params)) { ... }\<close>.\<close>

definition resolve_rules ::
  "(string \<Rightarrow> string \<Rightarrow> bool) \<Rightarrow> (string \<Rightarrow> string) \<Rightarrow> string \<Rightarrow> jsval \<Rightarrow> string \<Rightarrow>
   exn + built \<times> jsval" where
  "resolve_rules minimatch resolve localDir s localFile =
     (case get_prop ''params'' s of
        JArr params \<Rightarrow>
          (case forEach_rules minimatch resolve localDir localFile params
                  (([], ObjectPrototype), JUndefined) of
             Inl e \<Rightarrow> Inl e
           | Inr ((own, pr), onlyForEnv) \<Rightarrow> Inr ((obj_delete ''OnlyForEnv'' own, pr), onlyForEnv))
      | _ \<Rightarrow> Inr (([], ObjectPrototype), JUndefined))"

definition getS3Params ::
  "(string \<Rightarrow> string \<Rightarrow> bool) \<Rightarrow> (string \<Rightarrow> string) \<Rightarrow> jsval \<Rightarrow> string \<Rightarrow> jsval \<Rightarrow> string \<Rightarrow>
   exn + built option" where
  "getS3Params minimatch resolve env localDir s localFile =
     (case resolve_rules minimatch resolve localDir s localFile of
        Inl e \<Rightarrow> Inl e
      | Inr (s3Params, onlyForEnv) \<Rightarrow>
          if truthy onlyForEnv \<and> \<not> strict_eq onlyForEnv env then Inr None
          else Inr (Some s3Params))"

section \<open>The operations\<close>

text \<open>The constructor's \<open>this.options = options || {}\<close>, and \<open>this.options.env\<close>.\<close>

definition this_options :: "jsval \<Rightarrow> jsval" where
  "this_options options = js_or options (JObj [])"

definition options_env :: "jsval \<Rightarrow> jsval" where
  "options_env options = get_prop ''env'' (this_options options)"

text \<open>
  The callback of \<open>s3Sync.map\<close> in \<open>sync\<close>, up to the call of \<open>uploadDir\<close>. The first
  call of \<open>s.hasOwnProperty\<close> throws if any of them does. The executor of
  \<open>new Promise\<close> runs at once, so the request is issued inside the callback; an
  exception in the executor (joining the directory converts \<open>s.localDir\<close> to a string)
  rejects the target's promise and is not thrown by the callback. The request object is
  written without its function-valued property \<open>getS3Params\<close>, which is
  \<^const>\<open>getS3Params\<close> above at this target. Building the client (\<open>this.client()\<close>)
  asks the provider for credentials and is not recorded. The service path is a string.
\<close>

definition sync_target :: "(int \<Rightarrow> string) \<Rightarrow> string \<Rightarrow> jsval \<Rightarrow> exn + event list \<times> job" where
  "sync_target numstr servicePath s =
     (if hasOwnProperty_throws s then Inl TypeError
      else
        let bucketPrefix =
              (if has_own ''bucketPrefix'' s then get_prop ''bucketPrefix'' s else JStr []);
            acl = (if has_own ''acl'' s then get_prop ''acl'' s else JStr ''private'');
            followSymlinks =
              (if has_own ''followSymlinks'' s then get_prop ''followSymlinks'' s
               else JBool False);
            defaultContentType =
              (if has_own ''defaultContentType'' s then get_prop ''defaultContentType'' s
               else JUndefined)
        in
          if \<not> truthy (get_prop ''bucketName'' s) \<or> \<not> truthy (get_prop ''localDir'' s)
          then Inl (Thrown ''Invalid custom.s3Sync'')
          else
            let deleteRemoved =
                  (if has_own ''deleteRemoved'' s then get_prop ''deleteRemoved'' s
                   else JBool True)
            in
              (case js_string numstr (get_prop ''localDir'' s) of
                 None \<Rightarrow> Inr ([], Rejected TypeError)
               | Some dir \<Rightarrow>
                   let localDir = join_with ''/'' [servicePath, dir];
                       params =
                         [(''maxAsyncS3'', JNum 5),
                          (''localDir'', JStr localDir),
                          (''deleteRemoved'', deleteRemoved),
                          (''followSymlinks'', followSymlinks),
                          (''s3Params'',
                             JObj [(''Bucket'', get_prop ''bucketName'' s),
                                   (''Prefix'', bucketPrefix),
                                   (''ACL'', acl)])];
                       params' =
                         (if defaultContentType \<noteq> JUndefined
                          then fst (js_assign (params, ObjectPrototype)
                                      [(''defaultContentType'', defaultContentType)])
                          else params)
                   in Inr ([UploadDir (JObj params')], Pending)))"

text \<open>The callback of \<open>s3Sync.map\<close> in \<open>clear\<close>, up to the call of \<open>deleteDir\<close>.\<close>

definition clear_target :: "jsval \<Rightarrow> exn + event list \<times> job" where
  "clear_target s =
     (if hasOwnProperty_throws s then Inl TypeError
      else
        let bucketPrefix =
              (if has_own ''bucketPrefix'' s then get_prop ''bucketPrefix'' s else JStr [])
        in Inr ([DeleteDir (JObj [(''Bucket'', get_prop ''bucketName'' s),
                                  (''Prefix'', bucketPrefix)])],
                Pending))"

text \<open>
  \<open>Array.prototype.map\<close> with a callback that may throw: the events of the entries
  before the throw have happened, the entries after it are never visited.
\<close>

fun map_targets ::
  "(jsval \<Rightarrow> exn + event list \<times> job) \<Rightarrow> jsval list \<Rightarrow> event list \<times> (exn + job list)" where
  "map_targets f [] = ([], Inr [])"
| "map_targets f (s # ss) =
     (case f s of
        Inl e \<Rightarrow> ([], Inl e)
      | Inr (evs, j) \<Rightarrow>
          (case map_targets f ss of
             (evs', Inl e) \<Rightarrow> (evs @ evs', Inl e)
           | (evs', Inr js) \<Rightarrow> (evs @ evs', Inr (j # js))))"

text \<open>
  The operations, up to the promise they return. The result is the trace of events and
  either the exception thrown or the promise.
\<close>

definition sync :: "(int \<Rightarrow> string) \<Rightarrow> string \<Rightarrow> jsval \<Rightarrow> event list \<times> (exn + promise)" where
  "sync numstr servicePath s3Sync =
     (case s3Sync of
        JArr ss \<Rightarrow>
          (case map_targets (sync_target numstr servicePath) ss of
             (evs, Inl e) \<Rightarrow>
               (ConsoleLog [Plain messagePrefix,
                            Chalk Yellow ''Syncing directories and S3 prefixes...''] # evs,
                Inl e)
           | (evs, Inr jobs) \<Rightarrow>
               (ConsoleLog [Plain messagePrefix,
                            Chalk Yellow ''Syncing directories and S3 prefixes...''] # evs,
                Inr (AllThen jobs
                       [PrintDot, ConsoleLog [Plain []],
                        ConsoleLog [Plain messagePrefix, Chalk Yellow ''Synced.'']])))
      | _ \<Rightarrow>
          ([ConsoleLog [Plain messagePrefix, Chalk Red ''No configuration found'']],
           Inr Resolved))"

definition clear :: "jsval \<Rightarrow> event list \<times> (exn + promise)" where
  "clear s3Sync =
     (case s3Sync of
        JArr ss \<Rightarrow>
          (case map_targets clear_target ss of
             (evs, Inl e) \<Rightarrow>
               (ConsoleLog [Plain messagePrefix, Chalk Yellow ''Removing S3 objects...''] # evs,
                Inl e)
           | (evs, Inr jobs) \<Rightarrow>
               (ConsoleLog [Plain messagePrefix, Chalk Yellow ''Removing S3 objects...''] # evs,
                Inr (AllThen jobs
                       [PrintDot, ConsoleLog [Plain []],
                        ConsoleLog [Plain messagePrefix, Chalk Yellow ''Removed.'']])))
      | _ \<Rightarrow> ([], Inr Resolved))"

section \<open>What the specification says of parameter resolution\<close>

text \<open>The rule list of a target: the elements of \<open>s.params\<close>, none when it is no array.\<close>

definition rules_of :: "jsval \<Rightarrow> jsval list" where
  "rules_of s = (case get_prop ''params'' s of JArr params \<Rightarrow> params | _ \<Rightarrow> [])"

text \<open>The rules whose glob matches the file, in listed order.\<close>

definition matching_rules ::
  "(string \<Rightarrow> string \<Rightarrow> bool) \<Rightarrow> (string \<Rightarrow> string) \<Rightarrow> string \<Rightarrow> string \<Rightarrow> jsval list \<Rightarrow>
   jsval list" where
  "matching_rules minimatch resolve localDir localFile params =
     filter (rule_matches minimatch resolve localDir localFile) params"

text \<open>The shallow merge of two mappings: every key of the second overwrites.\<close>

definition merge_into :: "jsobj \<Rightarrow> jsobj \<Rightarrow> jsobj" where
  "merge_into target source =
     fold (\<lambda>k t. obj_set k (obj_get k source) t) (map fst source) target"

text \<open>The shallow merge of the parameters of a list of rules, in order.\<close>

definition merge_rules :: "jsval list \<Rightarrow> jsobj" where
  "merge_rules rules = fold (\<lambda>param acc. merge_into acc (rule_params param)) rules []"

text \<open>Last match wins: the value of key \<open>k\<close> in the last rule that has the key.\<close>

definition last_value :: "string \<Rightarrow> jsval list \<Rightarrow> jsval" where
  "last_value k rules =
     (case filter (\<lambda>param. obj_has k (rule_params param)) rules of
        [] \<Rightarrow> JUndefined
      | r # rs \<Rightarrow> obj_get k (rule_params (last (r # rs))))"

text \<open>
  The resolved \<open>onlyForEnv\<close>: the last value of \<open>OnlyForEnv\<close> that is set (truthy) among
  the given rules, \<open>undefined\<close> when there is none.
\<close>

definition resolved_onlyForEnv :: "jsval list \<Rightarrow> jsval" where
  "resolved_onlyForEnv rules =
     (case filter truthy (map (\<lambda>param. obj_get ''OnlyForEnv'' (rule_params param)) rules) of
        [] \<Rightarrow> JUndefined
      | v # vs \<Rightarrow> last (v # vs))"

text \<open>A rule whose parameters have an own key \<open>__proto__\<close>.\<close>

definition sets_proto :: "jsval \<Rightarrow> bool" where
  "sets_proto param = obj_has ''__proto__'' (rule_params param)"

section \<open>What the specification says of the operations\<close>

text \<open>
  A target that passes the check of \<open>sync\<close>: \<open>hasOwnProperty\<close> can be called on it, and
  it has a bucket name and a local directory.
\<close>

definition valid_target :: "jsval \<Rightarrow> bool" where
  "valid_target s =
     (\<not> hasOwnProperty_throws s \<and> truthy (get_prop ''bucketName'' s) \<and>
      truthy (get_prop ''localDir'' s))"

text \<open>A target that is there but misses its bucket name or its local directory.\<close>

definition missing_field :: "jsval \<Rightarrow> bool" where
  "missing_field s =
     (\<not> hasOwnProperty_throws s \<and>
      (\<not> truthy (get_prop ''bucketName'' s) \<or> \<not> truthy (get_prop ''localDir'' s)))"

text \<open>
  The request \<open>sync\<close> hands to \<open>uploadDir\<close> for a target, with the defaults filled in;
  none when the local directory cannot be written as a string.
\<close>

definition uploadDir_params :: "(int \<Rightarrow> string) \<Rightarrow> string \<Rightarrow> jsval \<Rightarrow> jsval option" where
  "uploadDir_params numstr servicePath s =
     map_option
       (\<lambda>dir.
          JObj
            ([(''maxAsyncS3'', JNum 5),
              (''localDir'', JStr (servicePath @ ''/'' @ dir)),
              (''deleteRemoved'',
                 if has_own ''deleteRemoved'' s then get_prop ''deleteRemoved'' s else JBool True),
              (''followSymlinks'',
                 if has_own ''followSymlinks'' s then get_prop ''followSymlinks'' s
                 else JBool False),
              (''s3Params'',
                 JObj [(''Bucket'', get_prop ''bucketName'' s),
                       (''Prefix'',
                          if has_own ''bucketPrefix'' s then get_prop ''bucketPrefix'' s
                          else JStr []),
                       (''ACL'', if has_own ''acl'' s then get_prop ''acl'' s else JStr ''private'')])]
             @ (if has_own ''defaultContentType'' s \<and>
                   get_prop ''defaultContentType'' s \<noteq> JUndefined
                then [(''defaultContentType'', get_prop ''defaultContentType'' s)] else [])))
       (js_string numstr (get_prop ''localDir'' s))"

text \<open>The requests issued for a valid target, and the promise of the target.\<close>

definition upload_events :: "(int \<Rightarrow> string) \<Rightarrow> string \<Rightarrow> jsval \<Rightarrow> event list" where
  "upload_events numstr servicePath s =
     (case uploadDir_params numstr servicePath s of None \<Rightarrow> [] | Some p \<Rightarrow> [UploadDir p])"

definition upload_job :: "(int \<Rightarrow> string) \<Rightarrow> string \<Rightarrow> jsval \<Rightarrow> job" where
  "upload_job numstr servicePath s =
     (case uploadDir_params numstr servicePath s of
        None \<Rightarrow> Rejected TypeError
      | Some p \<Rightarrow> Pending)"

text \<open>The request \<open>clear\<close> hands to \<open>deleteDir\<close> for a target.\<close>

definition deleteDir_params :: "jsval \<Rightarrow> jsval" where
  "deleteDir_params s =
     JObj [(''Bucket'', get_prop ''bucketName'' s),
           (''Prefix'',
              if has_own ''bucketPrefix'' s then get_prop ''bucketPrefix'' s else JStr [])]"

section \<open>Example configurations\<close>

text \<open>A target with a bucket and a directory, and one that misses its bucket name.\<close>

definition site_target :: jsval where
  "site_target = JObj [(''bucketName'', JStr ''my-bucket''), (''localDir'', JStr ''site'')]"

definition nameless_target :: jsval where
  "nameless_target = JObj [(''localDir'', JStr ''docs''), (''bucketPrefix'', JStr ''docs/'')]"

text \<open>A target that asks for ten simultaneous transfers.\<close>

definition eager_target :: jsval where
  "eager_target =
     JObj [(''bucketName'', JStr ''my-bucket''), (''localDir'', JStr ''site''),
           (''maxAsyncS3'', JNum 10)]"

text \<open>A target with an own key \<open>hasOwnProperty\<close>.\<close>

definition shadowing_target :: jsval where
  "shadowing_target =
     JObj [(''bucketName'', JStr ''my-bucket''), (''localDir'', JStr ''site''),
           (''hasOwnProperty'', JStr ''x'')]"

text \<open>The two rules for \<open>*.html\<close> of the specification's example.\<close>

definition html_rules :: "jsval list" where
  "html_rules =
     [JObj [(''*.html'', JObj [(''ContentType'', JStr ''text/html'')])],
      JObj [(''*.html'', JObj [(''ContentType'', JStr ''text/html; charset=utf-8'')])]]"

text \<open>A target whose one rule is for the environment \<open>prod\<close> only.\<close>

definition prod_target :: jsval where
  "prod_target =
     JObj [(''bucketName'', JStr ''my-bucket''), (''localDir'', JStr ''site''),
           (''params'',
              JArr [JObj [(''*.html'', JObj [(''ContentType'', JStr ''text/html''),
                                            (''OnlyForEnv'', JStr ''prod'')])]])]"


text \<open>A stand-in for \<open>minimatch\<close> that knows the one pattern and file of the examples.\<close>

definition html_minimatch :: "string \<Rightarrow> string \<Rightarrow> bool" where
  "html_minimatch localFile pattern =
     (localFile = ''/srv/site/index.html'' \<and> pattern = ''/srv/site/*.html'')"

section \<open>Objects\<close>

lemma map_of_obj_set: "map_of (obj_set k v kvs) = (map_of kvs)(k \<mapsto> v)"
  by (induction kvs) (auto simp: fun_eq_iff)

lemma map_of_fold_obj_set:
  "map_of (fold (\<lambda>k t. obj_set k (f k) t) ks t) k' =
     (if k' \<in> set ks then Some (f k') else map_of t k')"
  by (induction ks arbitrary: t) (auto simp: map_of_obj_set)

lemma map_of_merge_into:
  "map_of (merge_into target source) k =
     (case map_of source k of Some v \<Rightarrow> Some v | None \<Rightarrow> map_of target k)"
proof (cases "map_of source k")
  case None
  then have "k \<notin> set (map fst source)" by (simp add: map_of_eq_None_iff)
  with None show ?thesis by (simp add: merge_into_def map_of_fold_obj_set)
next
  case (Some v)
  then have "k \<in> set (map fst source)" by (metis map_of_eq_None_iff option.distinct(1) set_map)
  with Some show ?thesis by (simp add: merge_into_def map_of_fold_obj_set obj_get_def)
qed

lemma obj_get_merge_into:
  "obj_get k (merge_into target source) =
     (if obj_has k source then obj_get k source else obj_get k target)"
  by (auto simp: obj_get_def obj_has_def map_of_merge_into split: option.splits)

lemma obj_has_merge_into:
  "obj_has k (merge_into target source) = (obj_has k source \<or> obj_has k target)"
  by (auto simp: obj_has_def map_of_merge_into split: option.splits)

lemma obj_get_absent: "\<not> obj_has k kvs \<Longrightarrow> obj_get k kvs = JUndefined"
  by (simp add: obj_get_def obj_has_def)


lemma map_of_obj_delete: "map_of (obj_delete k kvs) = (map_of kvs)(k := None)"
  by (induction kvs) (auto simp: obj_delete_def fun_eq_iff)

lemma obj_get_delete_other: "k' \<noteq> k \<Longrightarrow> obj_get k' (obj_delete k kvs) = obj_get k' kvs"
  by (simp add: obj_get_def map_of_obj_delete)

lemma obj_has_delete_other: "k' \<noteq> k \<Longrightarrow> obj_has k' (obj_delete k kvs) = obj_has k' kvs"
  by (simp add: obj_has_def map_of_obj_delete)

lemma truthy_not_undefined: "truthy v \<Longrightarrow> \<not> strict_eq v JUndefined"
  by (cases v) auto

lemma obj_get_Nil: "obj_get k [] = JUndefined"
  by (simp add: obj_get_def)

lemma obj_has_Nil: "obj_has k [] = False"
  by (simp add: obj_has_def)

lemma obj_has_keys: "obj_has k kvs = (k \<in> fst ` set kvs)"
  by (simp add: obj_has_def map_of_eq_None_iff)

lemma truthy_obj_get_has: "truthy (obj_get k kvs) \<Longrightarrow> obj_has k kvs"
  by (auto simp: obj_get_def obj_has_def split: option.splits)

subsection \<open>Built objects\<close>

lemma map_of_built_set:
  "k \<noteq> ''__proto__'' \<Longrightarrow>
   map_of (fst (built_set k' v t)) k = (if k' = k then Some v else map_of (fst t) k)"
  by (cases t) (auto simp: built_set_def map_of_obj_set)

lemma map_of_fold_built_set:
  "k \<noteq> ''__proto__'' \<Longrightarrow>
   map_of (fst (fold (\<lambda>k t. built_set k (f k) t) ks t)) k =
     (if k \<in> set ks then Some (f k) else map_of (fst t) k)"
  by (induction ks arbitrary: t) (auto simp: map_of_built_set)

lemma map_of_js_assign:
  assumes "k \<noteq> ''__proto__''"
  shows "map_of (fst (js_assign target source)) k =
     (case map_of source k of Some v \<Rightarrow> Some v | None \<Rightarrow> map_of (fst target) k)"
proof (cases "map_of source k")
  case None
  then have "k \<notin> set (map fst source)" by (simp add: map_of_eq_None_iff)
  with None show ?thesis by (simp add: js_assign_def map_of_fold_built_set [OF assms])
next
  case (Some v)
  then have "k \<in> set (map fst source)" by (metis map_of_eq_None_iff option.distinct(1) set_map)
  with Some show ?thesis by (simp add: js_assign_def map_of_fold_built_set [OF assms] obj_get_def)
qed

lemma map_of_js_assign_merge:
  "k \<noteq> ''__proto__'' \<Longrightarrow>
   map_of (fst (js_assign target source)) k = map_of (merge_into (fst target) source) k"
  by (simp add: map_of_js_assign map_of_merge_into)

lemma fold_built_set_plain:
  "''__proto__'' \<notin> set ks \<Longrightarrow>
   fold (\<lambda>k t. built_set k (f k) t) ks (own, pr) = (fold (\<lambda>k t. obj_set k (f k) t) ks own, pr)"
  by (induction ks arbitrary: own) (auto simp: built_set_def)

lemma js_assign_plain:
  "\<not> obj_has ''__proto__'' source \<Longrightarrow> js_assign (own, pr) source = (merge_into own source, pr)"
  by (simp add: js_assign_def merge_into_def fold_built_set_plain obj_has_keys)

lemma built_get_plain: "built_get k (own, ObjectPrototype) = obj_get k own"
  by (simp add: built_get_def obj_get_absent)


lemma built_get_own: "obj_has k (fst t) \<Longrightarrow> built_get k t = obj_get k (fst t)"
  by (cases t) (simp add: built_get_def)

section \<open>The progress handler\<close>

lemma on_progress_cases:
  "on_progress p e = (p, []) \<or>
   (snd e \<noteq> 0 \<and> p < current (fst e) (snd e) \<and>
    on_progress p e = (current (fst e) (snd e), [PrintDot]))"
  by (cases e) auto

lemma job_ticks_current:
  "d \<in> set (job_ticks p es) \<Longrightarrow> \<exists>e\<in>set es. snd e \<noteq> 0 \<and> d = current (fst e) (snd e)"
proof (induction es arbitrary: p)
  case Nil
  then show ?case by simp
next
  case (Cons e es)
  from on_progress_cases [of p e] show ?case
  proof
    assume "on_progress p e = (p, [])"
    with Cons show ?thesis by auto
  next
    assume c: "snd e \<noteq> 0 \<and> p < current (fst e) (snd e) \<and>
      on_progress p e = (current (fst e) (snd e), [PrintDot])"
    with Cons.prems have "d = current (fst e) (snd e) \<or> d \<in> set (job_ticks (current (fst e) (snd e)) es)"
      by simp
    with Cons.IH c show ?thesis by auto
  qed
qed

lemma current_dvd: "10 dvd current a t"
  by (simp add: current_def)

lemma current_le_100:
  assumes "a \<le> t" and "t \<noteq> 0"
  shows "current a t \<le> 100"
proof -
  have "(rat_of_nat a / rat_of_nat t) * 10 \<le> 10"
    using assms by (simp add: field_simps)
  from round_mono [OF this] show ?thesis by (simp add: current_def)
qed

lemma round_tenths_iff:
  fixes a t :: nat and k :: int
  assumes "0 < t"
  shows "round ((rat_of_nat a / rat_of_nat t) * 10) = k \<longleftrightarrow>
         (2 * k - 1) * int t \<le> 20 * int a \<and> 20 * int a < (2 * k + 1) * int t"
proof -
  let ?x = "(rat_of_nat a / rat_of_nat t) * 10"
  have tpos: "(0::rat) < rat_of_nat t" using assms by simp
  have "round ?x = k \<longleftrightarrow> rat_of_int k \<le> ?x + 1/2 \<and> ?x + 1/2 < rat_of_int k + 1"
    unfolding round_def by (rule floor_eq_iff)
  also have "rat_of_int k \<le> ?x + 1/2 \<longleftrightarrow>
      rat_of_int ((2 * k - 1) * int t) \<le> rat_of_int (20 * int a)"
    using tpos by (simp add: field_simps)
  also have "?x + 1/2 < rat_of_int k + 1 \<longleftrightarrow>
      rat_of_int (20 * int a) < rat_of_int ((2 * k + 1) * int t)"
    using tpos by (simp add: field_simps)
  finally show ?thesis by (simp only: of_int_le_iff of_int_less_iff)
qed

lemma job_ticks_gt: "d \<in> set (job_ticks p es) \<Longrightarrow> p < d"
proof (induction es arbitrary: p)
  case Nil
  then show ?case by simp
next
  case (Cons e es)
  from on_progress_cases [of p e] show ?case
  proof
    assume "on_progress p e = (p, [])"
    with Cons show ?thesis by simp
  next
    assume c: "snd e \<noteq> 0 \<and> p < current (fst e) (snd e) \<and>
      on_progress p e = (current (fst e) (snd e), [PrintDot])"
    with Cons.prems have
      "d = current (fst e) (snd e) \<or> d \<in> set (job_ticks (current (fst e) (snd e)) es)"
      by simp
    with Cons.IH [of "current (fst e) (snd e)"] c show ?thesis by auto
  qed
qed

lemma job_ticks_sorted: "sorted_wrt (<) (job_ticks p es)"
proof (induction es arbitrary: p)
  case Nil
  then show ?case by simp
next
  case (Cons e es)
  from on_progress_cases [of p e] show ?case
  proof
    assume "on_progress p e = (p, [])"
    with Cons show ?thesis by simp
  next
    assume c: "snd e \<noteq> 0 \<and> p < current (fst e) (snd e) \<and>
      on_progress p e = (current (fst e) (snd e), [PrintDot])"
    with Cons.IH [of "current (fst e) (snd e)"] job_ticks_gt [of _ "current (fst e) (snd e)" es]
    show ?thesis by auto
  qed
qed

lemma job_ticks_skip_zero_total:
  "job_ticks p (filter (\<lambda>e. snd e \<noteq> 0) es) = job_ticks p es"
  by (induction es arbitrary: p) auto

lemma job_ticks_all_zero: "\<forall>e\<in>set es. snd e = 0 \<Longrightarrow> job_ticks p es = []"
  by (induction es arbitrary: p) auto

text \<open>
  Claim C3, as the specification states it, fails: the decile is not the fraction rounded
  down. At 19 of 100 the handler computes 20, and rounding down gives 10.
\<close>

theorem current_is_not_floor:
  "0 < (100::nat) \<and> current 19 100 = 20 \<and> decile_spec 19 100 = 10 \<and>
   current 19 100 \<noteq> decile_spec 19 100"
  by code_simp

text \<open>
  Claim C3, amended: for every progress event with a total above zero and at most
  \<open>10^14\<close>, and an amount of at most the total, the decile is the fraction rounded to
  the nearest multiple of ten percent, a half rounding up. The decile is \<open>10 * k\<close>
  exactly when \<open>k - 1/2 \<le> 10 * amount / total < k + 1/2\<close>, written here without the
  division. The bounds mark the range in which the doubles of the source give the
  decile of the exact quotient.
\<close>

theorem current_nearest_decile:
  "0 < progressTotal \<Longrightarrow> progressAmount \<le> progressTotal \<Longrightarrow> progressTotal \<le> 10 ^ 14 \<Longrightarrow>
   (current progressAmount progressTotal = 10 * k) =
   ((2 * k - 1) * int progressTotal \<le> 20 * int progressAmount \<and>
    20 * int progressAmount < (2 * k + 1) * int progressTotal)"
  using round_tenths_iff [of progressTotal progressAmount k]
  by (simp add: current_def)

text \<open>At 19 of 100 the bounds hold for \<open>k = 2\<close>, so the decile is 20.\<close>

theorem current_nearest_decile_witness:
  "0 < (100::nat) \<and> (19::nat) \<le> 100 \<and> (100::nat) \<le> 10 ^ 14 \<and> current 19 100 = 10 * 2"
  using current_nearest_decile [of 100 19 2] by simp

text \<open>
  Claim C4: over the progress events of one job, starting from \<open>percent = 0\<close>, the
  deciles of the dots printed are strictly increasing, so none is printed twice; each is
  a positive multiple of ten, and at most 100 when no event reports more done than the
  total. An event whose total is zero prints nothing and changes nothing, and a job whose
  total stays zero prints no dot. (The dot that \<open>sync\<close> and \<open>clear\<close> print once all
  jobs have ended is not printed by this handler.)
\<close>

theorem job_ticks_increasing:
  "sorted_wrt (<) (job_ticks 0 es) \<and>
   distinct (job_ticks 0 es) \<and>
   (\<forall>d\<in>set (job_ticks 0 es). 0 < d \<and> 10 dvd d) \<and>
   ((\<forall>e\<in>set es. fst e \<le> snd e) \<longrightarrow> (\<forall>d\<in>set (job_ticks 0 es). d \<le> 100)) \<and>
   job_ticks 0 (filter (\<lambda>e. snd e \<noteq> 0) es) = job_ticks 0 es \<and>
   ((\<forall>e\<in>set es. snd e = 0) \<longrightarrow> job_ticks 0 es = [])"
proof -
  have s: "sorted_wrt (<) (job_ticks 0 es)" by (rule job_ticks_sorted)
  then have d: "distinct (job_ticks 0 es)" by (simp add: strict_sorted_iff)
  have m: "\<forall>d\<in>set (job_ticks 0 es). 0 < d \<and> 10 dvd d"
    using job_ticks_gt [of _ 0 es] job_ticks_current [of _ 0 es] current_dvd by blast
  have b: "(\<forall>e\<in>set es. fst e \<le> snd e) \<longrightarrow> (\<forall>d\<in>set (job_ticks 0 es). d \<le> 100)"
    using job_ticks_current [of _ 0 es] current_le_100 by blast
  have z: "(\<forall>e\<in>set es. snd e = 0) \<longrightarrow> job_ticks 0 es = []"
    using job_ticks_all_zero [of es 0] by blast
  from s d m b z job_ticks_skip_zero_total [of 0 es] show ?thesis by blast
qed

text \<open>
  A job of five events: the totals of the second and the last are zero, and the dots
  come at 20, 50 and 100.
\<close>

theorem job_ticks_increasing_witness:
  "job_ticks 0 [(19, 100), (7, 0), (19, 100), (50, 100), (100, 100), (3, 0)] = [20, 50, 100] \<and>
   sorted_wrt (<) (job_ticks 0 [(19, 100), (7, 0), (19, 100), (50, 100), (100, 100), (3, 0)]) \<and>
   list_all (\<lambda>e. snd e = 0) [(7, 0), (3, 0 :: nat)] \<and>
   job_ticks 0 [(7, 0), (3, 0)] = []"
proof -
  have v: "job_ticks 0 [(19, 100), (7, 0), (19, 100), (50, 100), (100, 100), (3, 0)] =
      [20, 50, 100]"
    by code_simp
  have z: "\<forall>e\<in>set [(7, 0), (3, 0 :: nat)]. snd e = 0" by simp
  from job_ticks_increasing [of "[(7, 0), (3, 0)]"] z
  have "job_ticks 0 [(7, 0), (3, 0)] = []" by blast
  with v z show ?thesis by simp
qed

section \<open>The rule loop\<close>

lemma forEach_rules_nullish:
  "\<exists>p\<in>set params. nullish p \<Longrightarrow>
   forEach_rules minimatch resolve localDir localFile params st = Inl TypeError"
proof (induction params arbitrary: st)
  case Nil
  then show ?case by simp
next
  case (Cons p ps)
  show ?case
  proof (cases "nullish p")
    case True
    then show ?thesis by (cases st) (simp add: rule_step_def)
  next
    case False
    with Cons.prems have "\<exists>p\<in>set ps. nullish p" by simp
    from Cons.IH [OF this] False show ?thesis
      by (cases st) (simp add: rule_step_def Let_def)
  qed
qed


lemma fold_merge_cong:
  "map_of x k = map_of y k \<Longrightarrow>
   map_of (fold (\<lambda>param a. merge_into a (rule_params param)) rules x) k =
   map_of (fold (\<lambda>param a. merge_into a (rule_params param)) rules y) k"
proof (induction rules arbitrary: x y)
  case Nil
  then show ?case by simp
next
  case (Cons p ps)
  from Cons.prems have "map_of (merge_into x (rule_params p)) k =
      map_of (merge_into y (rule_params p)) k"
    by (simp add: map_of_merge_into split: option.splits)
  from Cons.IH [OF this] show ?case by simp
qed

text \<open>The own properties of the accumulator, whatever becomes of its prototype.\<close>

lemma forEach_rules_own:
  assumes "\<forall>p\<in>set params. \<not> nullish p" and "k \<noteq> ''__proto__''"
  shows "\<exists>st'. forEach_rules minimatch resolve localDir localFile params (acc, ofe) = Inr st' \<and>
     map_of (fst (fst st')) k =
     map_of (fold (\<lambda>param a. merge_into a (rule_params param))
               (matching_rules minimatch resolve localDir localFile params) (fst acc)) k"
  using assms(1)
proof (induction params arbitrary: acc ofe)
  case Nil
  then show ?case by (simp add: matching_rules_def)
next
  case (Cons p ps)
  have ps: "\<forall>p\<in>set ps. \<not> nullish p" and p: "\<not> nullish p" using Cons.prems by simp_all
  show ?case
  proof (cases "rule_matches minimatch resolve localDir localFile p")
    case False
    with p Cons.IH [OF ps, of acc ofe] show ?thesis
      by (simp add: matching_rules_def rule_step_def)
  next
    case True
    let ?acc' = "js_assign acc (rule_params p)"
    let ?ofe' = "js_or (built_get ''OnlyForEnv'' ?acc') ofe"
    have step: "rule_step minimatch resolve localDir localFile p (acc, ofe) = Inr (?acc', ?ofe')"
      using p True by (simp add: rule_step_def Let_def)
    have m: "matching_rules minimatch resolve localDir localFile (p # ps) =
      p # matching_rules minimatch resolve localDir localFile ps"
      using True by (simp add: matching_rules_def)
    from Cons.IH [OF ps, of ?acc' ?ofe'] obtain st' where
      st': "forEach_rules minimatch resolve localDir localFile ps (?acc', ?ofe') = Inr st'"
      and v: "map_of (fst (fst st')) k =
        map_of (fold (\<lambda>param a. merge_into a (rule_params param))
               (matching_rules minimatch resolve localDir localFile ps) (fst ?acc')) k"
      by blast
    have "map_of (fst ?acc') k = map_of (merge_into (fst acc) (rule_params p)) k"
      by (rule map_of_js_assign_merge [OF assms(2)])
    from fold_merge_cong [OF this] v
    have "map_of (fst (fst st')) k =
        map_of (fold (\<lambda>param a. merge_into a (rule_params param))
               (matching_rules minimatch resolve localDir localFile (p # ps)) (fst acc)) k"
      by (simp add: m)
    with st' step show ?thesis by simp
  qed
qed

lemma last_truthy_step:
  "(case filter truthy vs of [] \<Rightarrow> (if truthy v then v else d) | x # xs \<Rightarrow> last (x # xs)) =
   (case filter truthy (v # vs) of [] \<Rightarrow> d | x # xs \<Rightarrow> last (x # xs))"
  by (cases "filter truthy vs") auto

text \<open>The loop when no matching rule has a key \<open>__proto__\<close>.\<close>

lemma forEach_rules_plain:
  assumes "\<forall>p\<in>set params. \<not> nullish p"
    and "\<forall>p\<in>set (matching_rules minimatch resolve localDir localFile params). \<not> sets_proto p"
    and "truthy (obj_get ''OnlyForEnv'' own) \<longrightarrow> ofe = obj_get ''OnlyForEnv'' own"
  shows "forEach_rules minimatch resolve localDir localFile params ((own, ObjectPrototype), ofe) =
     Inr ((fold (\<lambda>param a. merge_into a (rule_params param))
            (matching_rules minimatch resolve localDir localFile params) own, ObjectPrototype),
          (case filter truthy (map (\<lambda>param. obj_get ''OnlyForEnv'' (rule_params param))
                  (matching_rules minimatch resolve localDir localFile params)) of
             [] \<Rightarrow> ofe
           | v # vs \<Rightarrow> last (v # vs)))"
  using assms
proof (induction params arbitrary: own ofe)
  case Nil
  then show ?case by (simp add: matching_rules_def)
next
  case (Cons p ps)
  have ps: "\<forall>p\<in>set ps. \<not> nullish p" and p: "\<not> nullish p" using Cons.prems(1) by simp_all
  have nps: "\<forall>p\<in>set (matching_rules minimatch resolve localDir localFile ps). \<not> sets_proto p"
    using Cons.prems(2) by (simp add: matching_rules_def)
  show ?case
  proof (cases "rule_matches minimatch resolve localDir localFile p")
    case False
    with p Cons.IH [OF ps nps Cons.prems(3)] show ?thesis
      by (simp add: matching_rules_def rule_step_def)
  next
    case True
    let ?own' = "merge_into own (rule_params p)"
    let ?v = "obj_get ''OnlyForEnv'' (rule_params p)"
    let ?ofe' = "js_or (obj_get ''OnlyForEnv'' ?own') ofe"
    have np: "\<not> obj_has ''__proto__'' (rule_params p)"
      using Cons.prems(2) True by (simp add: matching_rules_def sets_proto_def)
    have inv: "truthy (obj_get ''OnlyForEnv'' ?own') \<longrightarrow> ?ofe' = obj_get ''OnlyForEnv'' ?own'"
      by (simp add: js_or_def)
    have ofe': "?ofe' = (if truthy ?v then ?v else ofe)"
      using Cons.prems(3)
      by (auto simp: js_or_def obj_get_merge_into obj_get_absent)
    have step: "rule_step minimatch resolve localDir localFile p ((own, ObjectPrototype), ofe) =
        Inr ((?own', ObjectPrototype), ?ofe')"
      using p True by (simp add: rule_step_def Let_def js_assign_plain [OF np] built_get_plain)
    have m: "matching_rules minimatch resolve localDir localFile (p # ps) =
      p # matching_rules minimatch resolve localDir localFile ps"
      using True by (simp add: matching_rules_def)
    let ?ms = "matching_rules minimatch resolve localDir localFile ps"
    let ?vs = "map (\<lambda>param. obj_get ''OnlyForEnv'' (rule_params param)) ?ms"
    have "forEach_rules minimatch resolve localDir localFile (p # ps) ((own, ObjectPrototype), ofe) =
      forEach_rules minimatch resolve localDir localFile ps ((?own', ObjectPrototype), ?ofe')"
      by (simp add: step)
    also have "\<dots> = Inr ((fold (\<lambda>param a. merge_into a (rule_params param)) ?ms ?own',
          ObjectPrototype),
        (case filter truthy ?vs of [] \<Rightarrow> ?ofe' | v # vs \<Rightarrow> last (v # vs)))"
      by (rule Cons.IH [OF ps nps inv])
    also have "(case filter truthy ?vs of [] \<Rightarrow> ?ofe' | v # vs \<Rightarrow> last (v # vs)) =
        (case filter truthy (?v # ?vs) of [] \<Rightarrow> ofe | v # vs \<Rightarrow> last (v # vs))"
      by (simp only: ofe' last_truthy_step)
    finally show ?thesis by (simp add: m)
  qed
qed

text \<open>Once a matching rule has set \<open>OnlyForEnv\<close>, the variable stays set.\<close>

lemma forEach_rules_truthy:
  assumes "\<forall>p\<in>set params. \<not> nullish p"
    and "truthy ofe \<or>
      (\<exists>p\<in>set (matching_rules minimatch resolve localDir localFile params).
         truthy (obj_get ''OnlyForEnv'' (rule_params p)))"
  shows "\<exists>acc' ofe'. forEach_rules minimatch resolve localDir localFile params (acc, ofe) =
     Inr (acc', ofe') \<and> truthy ofe'"
  using assms
proof (induction params arbitrary: acc ofe)
  case Nil
  then show ?case by (simp add: matching_rules_def)
next
  case (Cons p ps)
  have ps: "\<forall>p\<in>set ps. \<not> nullish p" and p: "\<not> nullish p" using Cons.prems(1) by simp_all
  show ?case
  proof (cases "rule_matches minimatch resolve localDir localFile p")
    case False
    with Cons.prems(2) have "truthy ofe \<or>
      (\<exists>p\<in>set (matching_rules minimatch resolve localDir localFile ps).
         truthy (obj_get ''OnlyForEnv'' (rule_params p)))"
      by (simp add: matching_rules_def)
    from Cons.IH [OF ps this, of acc] False p show ?thesis
      by (simp add: rule_step_def)
  next
    case True
    let ?acc' = "js_assign acc (rule_params p)"
    let ?ofe' = "js_or (built_get ''OnlyForEnv'' ?acc') ofe"
    have step: "rule_step minimatch resolve localDir localFile p (acc, ofe) = Inr (?acc', ?ofe')"
      using p True by (simp add: rule_step_def Let_def)
    have "truthy ?ofe' \<or>
      (\<exists>p\<in>set (matching_rules minimatch resolve localDir localFile ps).
         truthy (obj_get ''OnlyForEnv'' (rule_params p)))"
    proof (cases "truthy (obj_get ''OnlyForEnv'' (rule_params p))")
      case t: True
      then have h: "obj_has ''OnlyForEnv'' (rule_params p)" by (rule truthy_obj_get_has)
      have mo: "map_of (fst ?acc') ''OnlyForEnv'' = map_of (rule_params p) ''OnlyForEnv''"
        using h by (auto simp: map_of_js_assign obj_has_def split: option.splits)
      then have "obj_has ''OnlyForEnv'' (fst ?acc')" using h by (simp add: obj_has_def)
      from built_get_own [OF this] mo
      have "built_get ''OnlyForEnv'' ?acc' = obj_get ''OnlyForEnv'' (rule_params p)"
        by (simp add: obj_get_def)
      with t show ?thesis by (simp add: js_or_def)
    next
      case False
      with Cons.prems(2) True show ?thesis
        by (auto simp: matching_rules_def js_or_def)
    qed
    from Cons.IH [OF ps this, of ?acc'] step show ?thesis by simp
  qed
qed

lemma resolved_truthy_exists:
  assumes "truthy (resolved_onlyForEnv rules)"
  shows "\<exists>p\<in>set rules. truthy (obj_get ''OnlyForEnv'' (rule_params p))"
proof -
  let ?vs = "filter truthy (map (\<lambda>param. obj_get ''OnlyForEnv'' (rule_params param)) rules)"
  from assms have "?vs \<noteq> []"
    by (auto simp: resolved_onlyForEnv_def split: list.splits)
  then have "last ?vs \<in> set ?vs" by (rule last_in_set)
  then show ?thesis by auto
qed

lemma fold_merge_last:
  "obj_get k (fold (\<lambda>param a. merge_into a (rule_params param)) rules acc) =
     (case filter (\<lambda>param. obj_has k (rule_params param)) rules of
        [] \<Rightarrow> obj_get k acc
      | r # rs \<Rightarrow> obj_get k (rule_params (last (r # rs))))"
proof (induction rules arbitrary: acc)
  case Nil
  then show ?case by simp
next
  case (Cons p ps)
  show ?case
    by (cases "filter (\<lambda>param. obj_has k (rule_params param)) ps")
      (simp_all add: Cons.IH obj_get_merge_into)
qed

lemma fold_merge_has:
  "obj_has k (fold (\<lambda>param a. merge_into a (rule_params param)) rules acc) =
     (obj_has k acc \<or> (\<exists>param\<in>set rules. obj_has k (rule_params param)))"
  by (induction rules arbitrary: acc) (auto simp: obj_has_merge_into)

lemma merge_rules_last_value: "obj_get k (merge_rules rules) = last_value k rules"
  by (simp add: merge_rules_def last_value_def fold_merge_last obj_get_Nil cong: list.case_cong)

lemma merge_rules_has:
  "obj_has k (merge_rules rules) = (\<exists>param\<in>set rules. obj_has k (rule_params param))"
  by (simp add: merge_rules_def fold_merge_has obj_has_Nil)

lemma rules_of_array: "get_prop ''params'' s = JArr params \<Longrightarrow> rules_of s = params"
  by (simp add: rules_of_def)

lemma rules_of_other: "\<not> is_array (get_prop ''params'' s) \<Longrightarrow> rules_of s = []"
  by (cases "get_prop ''params'' s") (auto simp: rules_of_def)

lemma resolve_rules_other:
  "\<not> is_array (get_prop ''params'' s) \<Longrightarrow>
   resolve_rules minimatch resolve localDir s localFile = Inr (([], ObjectPrototype), JUndefined)"
  by (cases "get_prop ''params'' s") (auto simp: resolve_rules_def)

lemma resolve_rules_plain:
  assumes "\<forall>p\<in>set (rules_of s). \<not> nullish p"
    and "\<forall>p\<in>set (matching_rules minimatch resolve localDir localFile (rules_of s)).
           \<not> sets_proto p"
  shows "resolve_rules minimatch resolve localDir s localFile =
     Inr ((obj_delete ''OnlyForEnv''
            (merge_rules (matching_rules minimatch resolve localDir localFile (rules_of s))),
           ObjectPrototype),
          resolved_onlyForEnv (matching_rules minimatch resolve localDir localFile (rules_of s)))"
proof (cases "is_array (get_prop ''params'' s)")
  case True
  then obtain params where ps: "get_prop ''params'' s = JArr params"
    by (cases "get_prop ''params'' s") auto
  then have r: "rules_of s = params" by (rule rules_of_array)
  have nn: "\<forall>p\<in>set params. \<not> nullish p" using assms(1) r by simp
  have np: "\<forall>p\<in>set (matching_rules minimatch resolve localDir localFile params). \<not> sets_proto p"
    using assms(2) r by simp
  have inv: "truthy (obj_get ''OnlyForEnv'' []) \<longrightarrow> JUndefined = obj_get ''OnlyForEnv'' []"
    by (simp add: obj_get_def)
  show ?thesis
    by (simp add: resolve_rules_def ps r forEach_rules_plain [OF nn np inv]
        merge_rules_def resolved_onlyForEnv_def)
next
  case False
  then show ?thesis
    by (simp add: resolve_rules_other rules_of_other matching_rules_def merge_rules_def
        resolved_onlyForEnv_def obj_delete_def)
qed



lemma getS3Params_null_rule:
  assumes "\<exists>p\<in>set (rules_of s). nullish p"
  shows "getS3Params minimatch resolve env localDir s localFile = Inl TypeError"
proof (cases "get_prop ''params'' s")
  case (JArr params)
  with assms have "\<exists>p\<in>set params. nullish p" by (simp add: rules_of_def)
  from forEach_rules_nullish [OF this] JArr show ?thesis
    by (simp add: getS3Params_def resolve_rules_def)
qed (use assms in \<open>simp_all add: rules_of_def\<close>)

text \<open>
  Claim C2: for every file and every list of rules, once the matching rules have been
  processed in order, the callback answers with \<open>null\<close> parameters (SKIP) when the resolved
  \<open>onlyForEnv\<close> is set and differs from the active environment, and with the merged
  parameters otherwise. The resolved \<open>onlyForEnv\<close> is the last \<open>OnlyForEnv\<close> value that
  is set among the matching rules; the merged parameters come without their \<open>OnlyForEnv\<close>
  key. On \<open>null\<close> parameters the S3 client leaves the file out of the upload; that step
  is the client library's. An entry of the list that is \<open>null\<close> or \<open>undefined\<close> is no
  rule: \<open>Object.keys\<close> throws on it. The statement leaves aside the rules whose
  parameters have a key \<open>__proto__\<close>, which \<open>Object.assign\<close> does not merge as a key.
\<close>

theorem getS3Params_skip_or_params:
  assumes "\<forall>p\<in>set (rules_of s). \<not> nullish p"
    and "\<forall>p\<in>set (matching_rules minimatch resolve localDir localFile (rules_of s)).
           \<not> sets_proto p"
  shows "getS3Params minimatch resolve env localDir s localFile =
     (if truthy (resolved_onlyForEnv
                   (matching_rules minimatch resolve localDir localFile (rules_of s))) \<and>
         \<not> strict_eq (resolved_onlyForEnv
                   (matching_rules minimatch resolve localDir localFile (rules_of s))) env
      then Inr None
      else Inr (Some (obj_delete ''OnlyForEnv''
              (merge_rules (matching_rules minimatch resolve localDir localFile (rules_of s))),
            ObjectPrototype)))"
  by (simp add: getS3Params_def resolve_rules_plain [OF assms])

text \<open>
  The rule of \<open>prod_target\<close> is for \<open>prod\<close> only: in the environment \<open>dev\<close> the file is
  skipped, in \<open>prod\<close> it gets its content type.
\<close>

theorem getS3Params_skip_or_params_witness:
  "list_all (\<lambda>p. \<not> nullish p) (rules_of prod_target) \<and>
   list_all (\<lambda>p. \<not> sets_proto p)
     (matching_rules html_minimatch (\<lambda>dir. dir) ''/srv/site'' ''/srv/site/index.html''
        (rules_of prod_target)) \<and>
   getS3Params html_minimatch (\<lambda>dir. dir) (JStr ''dev'') ''/srv/site'' prod_target
     ''/srv/site/index.html'' = Inr None \<and>
   getS3Params html_minimatch (\<lambda>dir. dir) (JStr ''prod'') ''/srv/site'' prod_target
     ''/srv/site/index.html'' = Inr (Some ([(''ContentType'', JStr ''text/html'')], ObjectPrototype))"
proof -
  let ?m = "matching_rules html_minimatch (\<lambda>dir. dir) ''/srv/site'' ''/srv/site/index.html''
      (rules_of prod_target)"
  have h: "\<forall>p\<in>set (rules_of prod_target). \<not> nullish p" by code_simp
  have n: "\<forall>p\<in>set ?m. \<not> sets_proto p" by code_simp
  have r: "resolved_onlyForEnv ?m = JStr ''prod''" by code_simp
  have m: "obj_delete ''OnlyForEnv'' (merge_rules ?m) = [(''ContentType'', JStr ''text/html'')]"
    by code_simp
  show ?thesis
    using h n
      getS3Params_skip_or_params [OF h n, of "JStr ''dev''"]
      getS3Params_skip_or_params [OF h n, of "JStr ''prod''"]
    by (simp add: r m list_all_iff)
qed

text \<open>
  Claim C5: for every file and every ordered list of rules, the loop merges the parameters
  of the matching rules, in listed order, into the accumulated \<open>s3Params\<close>: for every
  key other than \<open>__proto__\<close>, \<open>s3Params\<close> has the key as an own property exactly
  when a matching rule has it, and then it holds, and reads as, the whole value that the
  last matching rule with that key gives it.
\<close>

theorem merge_last_match_wins:
  assumes "\<forall>p\<in>set params. \<not> nullish p"
  shows "\<exists>s3Params onlyForEnv.
     forEach_rules minimatch resolve localDir localFile params
       (([], ObjectPrototype), JUndefined) = Inr (s3Params, onlyForEnv) \<and>
     (\<forall>k. k \<noteq> ''__proto__'' \<longrightarrow>
        obj_has k (fst s3Params) =
          (\<exists>param\<in>set (matching_rules minimatch resolve localDir localFile params).
             obj_has k (rule_params param)) \<and>
        obj_get k (fst s3Params) =
          last_value k (matching_rules minimatch resolve localDir localFile params) \<and>
        (obj_has k (fst s3Params) \<longrightarrow>
         built_get k s3Params =
           last_value k (matching_rules minimatch resolve localDir localFile params)))"
proof -
  let ?ms = "matching_rules minimatch resolve localDir localFile params"
  let ?run = "forEach_rules minimatch resolve localDir localFile params
       (([], ObjectPrototype), JUndefined)"
  have x: "''x'' \<noteq> ''__proto__''" by simp
  from forEach_rules_own [OF assms x, of minimatch resolve localDir localFile
      "([], ObjectPrototype)" JUndefined]
  obtain st where st: "?run = Inr st" by blast
  obtain s3Params onlyForEnv where sp: "st = (s3Params, onlyForEnv)" by (cases st)
  have own: "map_of (fst s3Params) k = map_of (merge_rules ?ms) k" if "k \<noteq> ''__proto__''" for k
  proof -
    from forEach_rules_own [OF assms that, of minimatch resolve localDir localFile
        "([], ObjectPrototype)" JUndefined]
    obtain st' where "?run = Inr st'" and
      "map_of (fst (fst st')) k =
        map_of (fold (\<lambda>param a. merge_into a (rule_params param)) ?ms
          (fst ([], ObjectPrototype))) k"
      by blast
    with st sp show ?thesis by (simp add: merge_rules_def)
  qed
  have all: "obj_has k (fst s3Params) = (\<exists>param\<in>set ?ms. obj_has k (rule_params param)) \<and>
        obj_get k (fst s3Params) = last_value k ?ms \<and>
        (obj_has k (fst s3Params) \<longrightarrow> built_get k s3Params = last_value k ?ms)"
    if k: "k \<noteq> ''__proto__''" for k
  proof -
    have h: "obj_has k (fst s3Params) = (\<exists>param\<in>set ?ms. obj_has k (rule_params param))"
      using own [OF k] merge_rules_has [of k ?ms] by (simp add: obj_has_def)
    have g: "obj_get k (fst s3Params) = last_value k ?ms"
      using own [OF k] merge_rules_last_value [of k ?ms] by (simp add: obj_get_def)
    have b: "obj_has k (fst s3Params) \<longrightarrow> built_get k s3Params = last_value k ?ms"
      using g built_get_own [of k s3Params] by simp
    from h g b show ?thesis by (intro conjI)
  qed
  have run: "?run = Inr (s3Params, onlyForEnv)" using st sp by simp
  have A: "\<forall>k. k \<noteq> ''__proto__'' \<longrightarrow>
        obj_has k (fst s3Params) = (\<exists>param\<in>set ?ms. obj_has k (rule_params param)) \<and>
        obj_get k (fst s3Params) = last_value k ?ms \<and>
        (obj_has k (fst s3Params) \<longrightarrow> built_get k s3Params = last_value k ?ms)"
  proof (intro allI impI)
    fix k :: string
    assume "k \<noteq> ''__proto__''"
    then show "obj_has k (fst s3Params) = (\<exists>param\<in>set ?ms. obj_has k (rule_params param)) \<and>
        obj_get k (fst s3Params) = last_value k ?ms \<and>
        (obj_has k (fst s3Params) \<longrightarrow> built_get k s3Params = last_value k ?ms)"
      by (rule all)
  qed
  show ?thesis
    by (rule exI [of _ s3Params], rule exI [of _ onlyForEnv], rule conjI [OF run A])
qed

text \<open>
  The specification's example: of two rules for \<open>*.html\<close>, the content type of the
  second one stands.
\<close>

theorem merge_last_match_wins_witness:
  "list_all (\<lambda>p. \<not> nullish p) html_rules \<and>
   (\<exists>s3Params onlyForEnv.
      forEach_rules html_minimatch (\<lambda>dir. dir) ''/srv/site'' ''/srv/site/index.html''
        html_rules (([], ObjectPrototype), JUndefined) = Inr (s3Params, onlyForEnv) \<and>
      obj_has ''ContentType'' (fst s3Params) \<and>
      built_get ''ContentType'' s3Params = JStr ''text/html; charset=utf-8'')"
proof -
  let ?m = "matching_rules html_minimatch (\<lambda>dir. dir) ''/srv/site''
      ''/srv/site/index.html'' html_rules"
  have h: "\<forall>p\<in>set html_rules. \<not> nullish p" by code_simp
  have v: "last_value ''ContentType'' ?m = JStr ''text/html; charset=utf-8''"
    by code_simp
  have e: "\<exists>param\<in>set ?m. obj_has ''ContentType'' (rule_params param)" by code_simp
  have k: "''ContentType'' \<noteq> ''__proto__''" by simp
  from merge_last_match_wins [OF h, of html_minimatch "\<lambda>dir. dir" "''/srv/site''"
      "''/srv/site/index.html''"]
  obtain s3Params onlyForEnv where
    run: "forEach_rules html_minimatch (\<lambda>dir. dir) ''/srv/site'' ''/srv/site/index.html''
        html_rules (([], ObjectPrototype), JUndefined) = Inr (s3Params, onlyForEnv)"
    and all: "\<forall>k. k \<noteq> ''__proto__'' \<longrightarrow>
        obj_has k (fst s3Params) = (\<exists>param\<in>set ?m. obj_has k (rule_params param)) \<and>
        obj_get k (fst s3Params) = last_value k ?m \<and>
        (obj_has k (fst s3Params) \<longrightarrow> built_get k s3Params = last_value k ?m)"
    by (elim exE conjE)
  note ab = all [rule_format, OF k]
  have a: "obj_has ''ContentType'' (fst s3Params) =
       (\<exists>param\<in>set ?m. obj_has ''ContentType'' (rule_params param))"
    by (rule ab [THEN conjunct1])
  have b: "obj_has ''ContentType'' (fst s3Params) \<longrightarrow>
       built_get ''ContentType'' s3Params = last_value ''ContentType'' ?m"
    by (rule ab [THEN conjunct2, THEN conjunct2])
  from a e have c: "obj_has ''ContentType'' (fst s3Params)" by (simp only:)
  from b c v have d: "built_get ''ContentType'' s3Params = JStr ''text/html; charset=utf-8''"
    by (simp only:)
  have "\<exists>s3Params onlyForEnv.
      forEach_rules html_minimatch (\<lambda>dir. dir) ''/srv/site'' ''/srv/site/index.html''
        html_rules (([], ObjectPrototype), JUndefined) = Inr (s3Params, onlyForEnv) \<and>
      obj_has ''ContentType'' (fst s3Params) \<and>
      built_get ''ContentType'' s3Params = JStr ''text/html; charset=utf-8''"
    by (rule exI [of _ s3Params], rule exI [of _ onlyForEnv], intro conjI run c d)
  moreover have "list_all (\<lambda>p. \<not> nullish p) html_rules" using h by (simp only: list_all_iff)
  ultimately show ?thesis by (rule conjI [rotated])
qed




text \<open>
  Claim C10: when the host gives no option \<open>env\<close>, so that \<open>this.options.env\<close> is
  \<open>undefined\<close>, every file whose matching rules resolve an \<open>OnlyForEnv\<close> value that is
  set is skipped: \<open>undefined\<close> is strictly equal to no value that is set.
\<close>

theorem undefined_env_skips:
  assumes "options_env options = JUndefined"
    and "\<forall>p\<in>set (rules_of s). \<not> nullish p"
    and "truthy (resolved_onlyForEnv
                   (matching_rules minimatch resolve localDir localFile (rules_of s)))"
  shows "getS3Params minimatch resolve (options_env options) localDir s localFile = Inr None"
proof (cases "is_array (get_prop ''params'' s)")
  case True
  then obtain params where ps: "get_prop ''params'' s = JArr params"
    by (cases "get_prop ''params'' s") auto
  then have r: "rules_of s = params" by (rule rules_of_array)
  have nn: "\<forall>p\<in>set params. \<not> nullish p" using assms(2) r by simp
  from resolved_truthy_exists [OF assms(3)] r
  have "truthy JUndefined \<or>
      (\<exists>p\<in>set (matching_rules minimatch resolve localDir localFile params).
         truthy (obj_get ''OnlyForEnv'' (rule_params p)))"
    by simp
  from forEach_rules_truthy [OF nn this, of "([], ObjectPrototype)"]
  obtain acc' ofe' where
    "forEach_rules minimatch resolve localDir localFile params
       (([], ObjectPrototype), JUndefined) = Inr (acc', ofe')" and "truthy ofe'"
    by blast
  with ps truthy_not_undefined [of ofe'] show ?thesis
    by (cases acc') (simp add: getS3Params_def resolve_rules_def assms(1))
next
  case False
  with assms(3) show ?thesis
    by (simp add: rules_of_other matching_rules_def resolved_onlyForEnv_def)
qed

text \<open>Without options at all, the file of \<open>prod_target\<close> is skipped.\<close>

theorem undefined_env_skips_witness:
  "options_env JUndefined = JUndefined \<and>
   list_all (\<lambda>p. \<not> nullish p) (rules_of prod_target) \<and>
   truthy (resolved_onlyForEnv (matching_rules html_minimatch (\<lambda>dir. dir) ''/srv/site''
      ''/srv/site/index.html'' (rules_of prod_target))) \<and>
   getS3Params html_minimatch (\<lambda>dir. dir) (options_env JUndefined) ''/srv/site'' prod_target
     ''/srv/site/index.html'' = Inr None"
proof -
  have e: "options_env JUndefined = JUndefined" by code_simp
  have h: "\<forall>p\<in>set (rules_of prod_target). \<not> nullish p" by code_simp
  have t: "truthy (resolved_onlyForEnv (matching_rules html_minimatch (\<lambda>dir. dir) ''/srv/site''
      ''/srv/site/index.html'' (rules_of prod_target)))"
    by code_simp
  from undefined_env_skips [OF e h t] e h t show ?thesis by (simp add: list_all_iff)
qed

section \<open>The operations on a configuration\<close>

lemma map_targets_all:
  "\<forall>s\<in>set ss. f s = Inr (g s, h s) \<Longrightarrow>
   map_targets f ss = (concat (map g ss), Inr (map h ss))"
  by (induction ss) auto

lemma map_targets_stops:
  "\<forall>s\<in>set good. f s = Inr (g s, h s) \<Longrightarrow> f bad = Inl e \<Longrightarrow>
   map_targets f (good @ bad # rest) = (concat (map g good), Inl e)"
  by (induction good) auto

lemma map_targets_event:
  "ev \<in> set (fst (map_targets f ss)) \<Longrightarrow>
   \<exists>s\<in>set ss. \<exists>evs j. f s = Inr (evs, j) \<and> ev \<in> set evs"
  by (induction ss) (auto split: sum.splits prod.splits)

lemma map_targets_error:
  "snd (map_targets f ss) = Inl e \<Longrightarrow> \<exists>s\<in>set ss. f s = Inl e"
  by (induction ss) (auto split: sum.splits prod.splits)

lemma sync_target_valid:
  "valid_target s \<Longrightarrow>
   sync_target numstr servicePath s =
     Inr (upload_events numstr servicePath s, upload_job numstr servicePath s)"
  by (cases "js_string numstr (get_prop ''localDir'' s)")
    (simp_all add: valid_target_def sync_target_def uploadDir_params_def upload_events_def
      upload_job_def Let_def js_assign_def built_set_def obj_get_def)


lemma sync_target_throws:
  "hasOwnProperty_throws s \<Longrightarrow> sync_target numstr servicePath s = Inl TypeError"
  by (simp add: sync_target_def)

lemma sync_target_Inr:
  assumes "sync_target numstr servicePath s = Inr (evs, j)"
  shows "valid_target s \<and> evs = upload_events numstr servicePath s"
proof -
  have v: "valid_target s"
    using assms by (auto simp: valid_target_def sync_target_def Let_def split: if_splits)
  with assms sync_target_valid [OF v, of numstr servicePath] show ?thesis by simp
qed

lemma upload_events_limit:
  "UploadDir params \<in> set (upload_events numstr servicePath s) \<Longrightarrow>
   get_prop ''maxAsyncS3'' params = JNum 5"
  by (cases "js_string numstr (get_prop ''localDir'' s)")
    (auto simp: upload_events_def uploadDir_params_def get_prop_def)

lemma clear_target_present:
  "\<not> hasOwnProperty_throws s \<Longrightarrow>
   clear_target s = Inr ([DeleteDir (deleteDir_params s)], Pending)"
  by (simp add: clear_target_def deleteDir_params_def Let_def)

lemma clear_target_throws: "hasOwnProperty_throws s \<Longrightarrow> clear_target s = Inl TypeError"
  by (simp add: clear_target_def)

lemma clear_target_error: "clear_target s = Inl e \<Longrightarrow> e = TypeError"
  by (auto simp: clear_target_def Let_def split: if_splits)




text \<open>
  Claim C7: for every configuration value that is not an array, \<open>sync\<close> logs
  \<open>No configuration found\<close> and \<open>clear\<close> logs nothing; both return a resolved promise
  and hand no request to the S3 client.
\<close>

theorem not_array_is_noop:
  assumes "\<not> is_array s3Sync"
  shows "sync numstr servicePath s3Sync =
       ([ConsoleLog [Plain messagePrefix, Chalk Red ''No configuration found'']], Inr Resolved) \<and>
     clear s3Sync = ([], Inr Resolved) \<and>
     filter is_remote (fst (sync numstr servicePath s3Sync)) = [] \<and>
     filter is_remote (fst (clear s3Sync)) = []"
  using assms by (cases s3Sync) (simp_all add: sync_def clear_def)

text \<open>No configuration at all.\<close>

theorem not_array_is_noop_witness:
  "\<not> is_array JUndefined \<and>
   sync decimal ''/srv'' JUndefined =
     ([ConsoleLog [Plain ''S3 Sync: '', Chalk Red ''No configuration found'']], Inr Resolved) \<and>
   clear JUndefined = ([], Inr Resolved)"
proof -
  have h: "\<not> is_array JUndefined" by simp
  from not_array_is_noop [OF h, of decimal "''/srv''"] h show ?thesis
    by (simp add: messagePrefix_def)
qed

text \<open>
  Claim C8, as the specification states it, fails in that the limit is not configurable:
  a target that asks for ten simultaneous transfers gets a request with the limit five.
\<close>

theorem eager_target_gets_five:
  "get_prop ''maxAsyncS3'' eager_target = JNum 10 \<and>
   fst (sync decimal ''/srv'' (JArr [eager_target])) =
     [ConsoleLog [Plain ''S3 Sync: '', Chalk Yellow ''Syncing directories and S3 prefixes...''],
      UploadDir (JObj [(''maxAsyncS3'', JNum 5), (''localDir'', JStr ''/srv/site''),
                       (''deleteRemoved'', JBool True), (''followSymlinks'', JBool False),
                       (''s3Params'', JObj [(''Bucket'', JStr ''my-bucket''),
                                           (''Prefix'', JStr []),
                                           (''ACL'', JStr ''private'')])])]"
  by code_simp

text \<open>
  Claim C8, amended: for every target, the upload request is issued with the limit
  \<open>maxAsyncS3\<close> of five simultaneous transfers, whatever the configuration says; the
  limit is fixed, not configurable.
\<close>

theorem uploadDir_limit_is_fixed:
  assumes "UploadDir params \<in> set (fst (sync numstr servicePath s3Sync))"
  shows "get_prop ''maxAsyncS3'' params = JNum 5"
proof (cases s3Sync)
  case (JArr ss)
  with assms have
    "UploadDir params \<in> set (fst (map_targets (sync_target numstr servicePath) ss))"
    by (auto simp: sync_def split: prod.splits sum.splits)
  from map_targets_event [OF this] obtain s evs j where
    "sync_target numstr servicePath s = Inr (evs, j)" and "UploadDir params \<in> set evs"
    by blast
  with sync_target_Inr [of numstr servicePath s evs j] show ?thesis
    by (simp add: upload_events_limit)
qed (use assms in \<open>simp_all add: sync_def\<close>)

text \<open>The request for the target that asks for ten.\<close>

theorem uploadDir_limit_is_fixed_witness:
  "UploadDir (JObj [(''maxAsyncS3'', JNum 5), (''localDir'', JStr ''/srv/site''),
                    (''deleteRemoved'', JBool True), (''followSymlinks'', JBool False),
                    (''s3Params'', JObj [(''Bucket'', JStr ''my-bucket''),
                                        (''Prefix'', JStr []),
                                        (''ACL'', JStr ''private'')])])
     \<in> set (fst (sync decimal ''/srv'' (JArr [eager_target]))) \<and>
   get_prop ''maxAsyncS3''
     (JObj [(''maxAsyncS3'', JNum 5), (''localDir'', JStr ''/srv/site''),
            (''deleteRemoved'', JBool True), (''followSymlinks'', JBool False),
            (''s3Params'', JObj [(''Bucket'', JStr ''my-bucket''),
                                (''Prefix'', JStr []),
                                (''ACL'', JStr ''private'')])]) = JNum 5"
proof -
  have h: "UploadDir (JObj [(''maxAsyncS3'', JNum 5), (''localDir'', JStr ''/srv/site''),
                    (''deleteRemoved'', JBool True), (''followSymlinks'', JBool False),
                    (''s3Params'', JObj [(''Bucket'', JStr ''my-bucket''),
                                        (''Prefix'', JStr []),
                                        (''ACL'', JStr ''private'')])])
     \<in> set (fst (sync decimal ''/srv'' (JArr [eager_target])))"
    by code_simp
  from uploadDir_limit_is_fixed [OF h] h show ?thesis by (rule conjI [rotated])
qed

text \<open>
  Claim C9, as stated, fails in that not every entry gets its request: on an entry with
  an own key \<open>hasOwnProperty\<close> the call \<open>s.hasOwnProperty('bucketPrefix')\<close> throws
  a TypeError, and \<open>clear\<close> issues no \<open>deleteDir\<close> for it.
\<close>

theorem clear_throws_on_shadowing_key:
  "\<not> nullish shadowing_target \<and>
   clear (JArr [shadowing_target]) =
     ([ConsoleLog [Plain ''S3 Sync: '', Chalk Yellow ''Removing S3 objects...'']],
      Inl TypeError) \<and>
   filter is_remote (fst (clear (JArr [shadowing_target]))) = []"
  by code_simp

text \<open>
  Claim C9, amended: \<open>clear\<close> validates neither bucket name nor local directory and never
  throws \<open>Invalid custom.s3Sync\<close>. For every configuration array on whose entries
  \<open>hasOwnProperty\<close> can be called (none is \<open>null\<close> or \<open>undefined\<close>, none has an own
  key \<open>hasOwnProperty\<close>), it issues a \<open>deleteDir\<close> request for every entry, also one
  that misses its bucket name or its local directory, with the entry's \<open>bucketName\<close>
  (\<open>undefined\<close> when missing) and its prefix. At the first entry on which
  \<open>hasOwnProperty\<close> cannot be called it throws a TypeError, after the requests for the
  entries before it and with none for that entry or a later one.
\<close>

theorem clear_does_not_validate:
  "snd (clear s3Sync) \<noteq> Inl (Thrown msg) \<and>
   ((\<forall>s\<in>set ss. \<not> hasOwnProperty_throws s) \<longrightarrow>
    clear (JArr ss) =
      (ConsoleLog [Plain messagePrefix, Chalk Yellow ''Removing S3 objects...'']
         # map (\<lambda>s. DeleteDir (deleteDir_params s)) ss,
       Inr (AllThen (map (\<lambda>s. Pending) ss)
              [PrintDot, ConsoleLog [Plain []],
               ConsoleLog [Plain messagePrefix, Chalk Yellow ''Removed.'']]))) \<and>
   ((\<forall>s\<in>set good. \<not> hasOwnProperty_throws s) \<and> hasOwnProperty_throws bad \<longrightarrow>
    clear (JArr (good @ bad # rest)) =
      (ConsoleLog [Plain messagePrefix, Chalk Yellow ''Removing S3 objects...'']
         # map (\<lambda>s. DeleteDir (deleteDir_params s)) good,
       Inl TypeError))"
proof (intro conjI impI)
  show "snd (clear s3Sync) \<noteq> Inl (Thrown msg)"
  proof (cases s3Sync)
    case (JArr ss')
    show ?thesis
    proof
      assume "snd (clear s3Sync) = Inl (Thrown msg)"
      with JArr have "snd (map_targets clear_target ss') = Inl (Thrown msg)"
        by (auto simp: clear_def split: prod.splits sum.splits)
      from map_targets_error [OF this] clear_target_error show False by blast
    qed
  qed (simp_all add: clear_def)
next
  assume "\<forall>s\<in>set ss. \<not> hasOwnProperty_throws s"
  then have "\<forall>s\<in>set ss. clear_target s = Inr ([DeleteDir (deleteDir_params s)], Pending)"
    by (simp add: clear_target_present)
  from map_targets_all [OF this] show "clear (JArr ss) =
      (ConsoleLog [Plain messagePrefix, Chalk Yellow ''Removing S3 objects...'']
         # map (\<lambda>s. DeleteDir (deleteDir_params s)) ss,
       Inr (AllThen (map (\<lambda>s. Pending) ss)
              [PrintDot, ConsoleLog [Plain []],
               ConsoleLog [Plain messagePrefix, Chalk Yellow ''Removed.'']]))"
    by (simp add: clear_def concat_map_singleton)
next
  assume a: "(\<forall>s\<in>set good. \<not> hasOwnProperty_throws s) \<and> hasOwnProperty_throws bad"
  then have "\<forall>s\<in>set good. clear_target s = Inr ([DeleteDir (deleteDir_params s)], Pending)"
    by (simp add: clear_target_present)
  from map_targets_stops [OF this clear_target_throws, of bad rest] a
  show "clear (JArr (good @ bad # rest)) =
      (ConsoleLog [Plain messagePrefix, Chalk Yellow ''Removing S3 objects...'']
         # map (\<lambda>s. DeleteDir (deleteDir_params s)) good,
       Inl TypeError)"
    by (simp add: clear_def concat_map_singleton)
qed

text \<open>
  A target without a bucket name is cleared with the bucket \<open>undefined\<close>; a target with
  an own key \<open>hasOwnProperty\<close> stops \<open>clear\<close>.
\<close>

theorem clear_does_not_validate_witness:
  "list_all (\<lambda>s. \<not> hasOwnProperty_throws s) [nameless_target, site_target] \<and>
   missing_field nameless_target \<and>
   clear (JArr [nameless_target, site_target]) =
     ([ConsoleLog [Plain ''S3 Sync: '', Chalk Yellow ''Removing S3 objects...''],
       DeleteDir (JObj [(''Bucket'', JUndefined), (''Prefix'', JStr ''docs/'')]),
       DeleteDir (JObj [(''Bucket'', JStr ''my-bucket''), (''Prefix'', JStr [])])],
      Inr (AllThen [Pending, Pending]
             [PrintDot, ConsoleLog [Plain []],
              ConsoleLog [Plain ''S3 Sync: '', Chalk Yellow ''Removed.'']])) \<and>
   hasOwnProperty_throws shadowing_target \<and>
   clear (JArr ([nameless_target] @ shadowing_target # [site_target])) =
     ([ConsoleLog [Plain ''S3 Sync: '', Chalk Yellow ''Removing S3 objects...''],
       DeleteDir (JObj [(''Bucket'', JUndefined), (''Prefix'', JStr ''docs/'')])],
      Inl TypeError)"
proof -
  have h: "\<forall>s\<in>set [nameless_target, site_target]. \<not> hasOwnProperty_throws s" by code_simp
  have h1: "\<forall>s\<in>set [nameless_target]. \<not> hasOwnProperty_throws s" by code_simp
  have t: "hasOwnProperty_throws shadowing_target" by code_simp
  have b: "missing_field nameless_target" by code_simp
  have dn: "deleteDir_params nameless_target =
      JObj [(''Bucket'', JUndefined), (''Prefix'', JStr ''docs/'')]"
    by code_simp
  have ds: "deleteDir_params site_target =
      JObj [(''Bucket'', JStr ''my-bucket''), (''Prefix'', JStr [])]"
    by code_simp
  note c = clear_does_not_validate [of "JArr [nameless_target, site_target]" "[]"
      "[nameless_target, site_target]" "[nameless_target]" shadowing_target "[site_target]"]
  from c [THEN conjunct2, THEN conjunct1, THEN mp, OF h]
  have x: "clear (JArr [nameless_target, site_target]) =
     ([ConsoleLog [Plain ''S3 Sync: '', Chalk Yellow ''Removing S3 objects...''],
       DeleteDir (JObj [(''Bucket'', JUndefined), (''Prefix'', JStr ''docs/'')]),
       DeleteDir (JObj [(''Bucket'', JStr ''my-bucket''), (''Prefix'', JStr [])])],
      Inr (AllThen [Pending, Pending]
             [PrintDot, ConsoleLog [Plain []],
              ConsoleLog [Plain ''S3 Sync: '', Chalk Yellow ''Removed.'']]))"
    by (simp only: dn ds messagePrefix_def list.map)
  from c [THEN conjunct2, THEN conjunct2, THEN mp, OF conjI [OF h1 t]]
  have y: "clear (JArr ([nameless_target] @ shadowing_target # [site_target])) =
     ([ConsoleLog [Plain ''S3 Sync: '', Chalk Yellow ''Removing S3 objects...''],
       DeleteDir (JObj [(''Bucket'', JUndefined), (''Prefix'', JStr ''docs/'')])],
      Inl TypeError)"
    by (simp only: dn messagePrefix_def list.map)
  have l: "list_all (\<lambda>s. \<not> hasOwnProperty_throws s) [nameless_target, site_target]"
    using h by (simp only: list_all_iff)
  from l b x t y show ?thesis by (intro conjI)
qed

end
